theory Spec2Isabelle
  imports Main "HOL-Library.Word" "HOL-Library.Monad_Syntax"
begin

unbundle bit_operations_syntax

text \<open>
  A shallow embedding of the Go package \<open>gcache\<close>: the plain cache of \<open>gcache.go\<close>, a
  thin layer over a \<open>fastcache\<close> store with a pooled scratch buffer on the read path, and
  the cache with a time to live of \<open>gcache_ttl.go\<close>, which stores every value behind an
  8-byte expiry timestamp and checks it on each read. Methods take the receiver's state and
  return the state afterwards; the clock reading is an argument; a run-time panic is
  \<open>None\<close>.
\<close>

section \<open>Go values: bytes, slices, errors\<close>

type_synonym byte = "8 word"

text \<open>
  A Go \<open>[]byte\<close> is either the nil slice or a slice with contents; an empty slice made by
  \<open>make\<close> or by re-slicing is not nil, and the code under study tests \<open>dst == nil\<close>.
\<close>

datatype slice = NilSlice | Slice "byte list"

fun bytes_of :: "slice \<Rightarrow> byte list" where
  "bytes_of NilSlice = []"
| "bytes_of (Slice xs) = xs"

definition len :: "slice \<Rightarrow> nat" where
  "len s = length (bytes_of s)"

text \<open>\<open>make([]byte, n)\<close>: a fresh, non-nil slice of \<open>n\<close> zero bytes.\<close>

definition make_slice :: "nat \<Rightarrow> slice" where
  "make_slice n = Slice (replicate n 0)"

text \<open>
  \<open>append(dst, xs...)\<close>: appending nothing to the nil slice leaves it nil; every other
  result is a non-nil slice.
\<close>

fun append_slice :: "slice \<Rightarrow> byte list \<Rightarrow> slice" where
  "append_slice NilSlice xs = (if xs = [] then NilSlice else Slice xs)"
| "append_slice (Slice d) xs = Slice (d @ xs)"

text \<open>
  \<open>copy(dst, src)\<close> overwrites the first \<open>min (len dst) (len src)\<close> bytes of \<open>dst\<close>; the
  result is the new contents of \<open>dst\<close>.
\<close>

definition copy_bytes :: "byte list \<Rightarrow> byte list \<Rightarrow> byte list" where
  "copy_bytes dst src = take (length dst) src @ drop (length src) dst"

text \<open>
  Slice expressions \<open>s[:n]\<close> and \<open>s[n:]\<close>. A bound outside the slice is a run-time panic,
  modelled as \<open>None\<close>. The bound checked is the length (the capacity of a slice is not
  modelled, so the model panics at least where Go does).
\<close>

fun slice_to :: "slice \<Rightarrow> nat \<Rightarrow> slice option" where
  "slice_to NilSlice n = (if n = 0 then Some NilSlice else None)"
| "slice_to (Slice xs) n = (if n \<le> length xs then Some (Slice (take n xs)) else None)"

fun slice_from :: "slice \<Rightarrow> nat \<Rightarrow> slice option" where
  "slice_from NilSlice n = (if n = 0 then Some NilSlice else None)"
| "slice_from (Slice xs) n = (if n \<le> length xs then Some (Slice (drop n xs)) else None)"

text \<open>\<open>s[:0]\<close> never panics: the nil slice stays nil, any other slice becomes empty.\<close>

fun slice_to0 :: "slice \<Rightarrow> slice" where
  "slice_to0 NilSlice = NilSlice"
| "slice_to0 (Slice xs) = Slice (take 0 xs)"

text \<open>\<open>[]byte(key)\<close>: the bytes of a Go string.\<close>

definition string_bytes :: "string \<Rightarrow> byte list" where
  "string_bytes key = map of_char key"

text \<open>A Go \<open>error\<close> result is \<open>None\<close> for \<open>nil\<close>.\<close>

datatype error = Error string

section \<open>Library collaborators\<close>

subsection \<open>encoding/binary, big endian\<close>

text \<open>
  \<open>binary.BigEndian.PutUint64(b, v)\<close> starts with the bounds check \<open>_ = b[7]\<close> (a panic
  on a slice shorter than 8 bytes), then writes \<open>b[0] = byte(v >> 56)\<close> down to
  \<open>b[7] = byte(v)\<close>. \<open>Uint64(b)\<close> has the same bounds check and returns
  \<open>uint64(b[7]) | uint64(b[6])<<8 | ... | uint64(b[0])<<56\<close>.
\<close>

definition PutUint64 :: "byte list \<Rightarrow> 64 word \<Rightarrow> byte list option" where
  "PutUint64 b v =
     (if length b < 8 then None
      else Some (b[0 := ucast (drop_bit 56 v),
                   1 := ucast (drop_bit 48 v),
                   2 := ucast (drop_bit 40 v),
                   3 := ucast (drop_bit 32 v),
                   4 := ucast (drop_bit 24 v),
                   5 := ucast (drop_bit 16 v),
                   6 := ucast (drop_bit 8 v),
                   7 := ucast v]))"

definition Uint64 :: "byte list \<Rightarrow> 64 word option" where
  "Uint64 b =
     (if length b < 8 then None
      else Some (ucast (b ! 7) OR push_bit 8 (ucast (b ! 6)) OR push_bit 16 (ucast (b ! 5))
                 OR push_bit 24 (ucast (b ! 4)) OR push_bit 32 (ucast (b ! 3))
                 OR push_bit 40 (ucast (b ! 2)) OR push_bit 48 (ucast (b ! 1))
                 OR push_bit 56 (ucast (b ! 0))))"

subsection \<open>time\<close>

text \<open>
  A \<open>time.Time\<close> wall-clock reading is modelled by its count of nanoseconds since the Unix
  epoch, an unbounded integer (Go keeps seconds and nanoseconds apart, so the count is not
  limited to 64 bits). A \<open>time.Duration\<close> is an \<open>int64\<close> count of nanoseconds.
  \<open>t.Add(d)\<close> is exact on the wall clock (it saturates only when the seconds since year 1
  leave \<open>int64\<close>, some 292 billion years away). \<open>t.UnixMilli()\<close> is
  \<open>unixSec * 1e3 + nsec / 1e6\<close> computed in \<open>int64\<close> with \<open>0 \<le> nsec < 1e9\<close>: the
  milliseconds rounded towards minus infinity, wrapped to 64 bits. The reading of
  \<open>time.Now()\<close> is an explicit argument of every function that calls it.
\<close>

type_synonym Time = int
type_synonym Duration = "64 word"

definition Time_Add :: "Time \<Rightarrow> Duration \<Rightarrow> Time" where
  "Time_Add t d = t + sint d"

definition UnixMilli :: "Time \<Rightarrow> 64 word" where
  "UnixMilli t = word_of_int (t div 1000000)"

subsection \<open>sync.Pool\<close>

text \<open>
  The pool only ever holds pointers to slices built by \<open>New\<close>, that is by
  \<open>make([]byte, 0, 1024)\<close>: \<open>Cache.Get\<close> never assigns through the pointer, so the slice
  behind it keeps length 0 (and is not nil). All buffers being alike, the pool is modelled
  by the number of idle buffers. \<open>Get\<close> takes an idle buffer or calls \<open>New\<close>; \<open>Put\<close>
  hands one back.
\<close>

type_synonym Pool = nat

definition Pool_New :: slice where
  "Pool_New = make_slice 0"

definition Pool_Get :: "Pool \<Rightarrow> slice \<times> Pool" where
  "Pool_Get p = (Pool_New, p - 1)"

definition Pool_Put :: "Pool \<Rightarrow> slice \<Rightarrow> Pool" where
  "Pool_Put p buf = Suc p"

subsection \<open>fastcache\<close>

text \<open>
  The store \<open>github.com/VictoriaMetrics/fastcache\<close> is an external library; the model
  follows its documented contract and keeps the entries only (no statistics counters, no
  eviction under memory pressure, which none of the properties below exercise).
  \<^item> \<open>Set(k, v)\<close> stores a copy of the entry unless it is too big: key and value lengths
    are kept in two bytes each and an entry with its 4-byte header must fit a 64KB chunk;
    a bigger entry is silently skipped (\<open>NewCache\<close>: "support small object < 64KB").
  \<^item> \<open>Get(dst, k)\<close> "appends value by the key k to dst and returns the result": on a
    miss nothing is appended and \<open>dst\<close> comes back as it was.
  \<^item> \<open>Has(k)\<close> tells whether an entry is stored under \<open>k\<close>; \<open>Del(k)\<close> removes it;
    \<open>Reset()\<close> removes every entry.
\<close>

type_synonym fastcache = "byte list \<rightharpoonup> byte list"

definition chunkSize :: nat where
  "chunkSize = 64 * 1024"

definition fits :: "byte list \<Rightarrow> byte list \<Rightarrow> bool" where
  "fits k v \<longleftrightarrow> length k < 2 ^ 16 \<and> length v < 2 ^ 16 \<and> 4 + length k + length v < chunkSize"

definition fastcache_New :: "int \<Rightarrow> fastcache" where
  "fastcache_New maxBytes = Map.empty"

definition fastcache_Set :: "fastcache \<Rightarrow> byte list \<Rightarrow> byte list \<Rightarrow> fastcache" where
  "fastcache_Set m k v = (if fits k v then m(k \<mapsto> v) else m)"

definition fastcache_Get :: "fastcache \<Rightarrow> slice \<Rightarrow> byte list \<Rightarrow> slice" where
  "fastcache_Get m dst k = (case m k of None \<Rightarrow> dst | Some v \<Rightarrow> append_slice dst v)"

definition fastcache_Has :: "fastcache \<Rightarrow> byte list \<Rightarrow> bool" where
  "fastcache_Has m k = (m k \<noteq> None)"

definition fastcache_Del :: "fastcache \<Rightarrow> byte list \<Rightarrow> fastcache" where
  "fastcache_Del m k = m(k := None)"

definition fastcache_Reset :: "fastcache \<Rightarrow> fastcache" where
  "fastcache_Reset m = Map.empty"

section \<open>gcache.go: the plain cache\<close>

record Cache =
  pool :: Pool
  cache :: fastcache

definition newSyncPool :: Pool where
  "newSyncPool = 0"

definition NewCache :: "int \<Rightarrow> Cache" where
  "NewCache maxBytes = \<lparr>pool = newSyncPool, cache = fastcache_New maxBytes\<rparr>"

text \<open>Every method returns its result together with the receiver's state afterwards.\<close>

definition Cache_Has :: "Cache \<Rightarrow> string \<Rightarrow> bool \<times> Cache" where
  "Cache_Has c key = (fastcache_Has (cache c) (string_bytes key), c)"

definition Cache_Get :: "Cache \<Rightarrow> string \<Rightarrow> slice \<times> Cache" where
  "Cache_Get c key =
     (let bkey = string_bytes key;
          (buf, p) = Pool_Get (pool c);
          dst = slice_to0 buf;
          dst = fastcache_Get (cache c) dst bkey
      in if dst = NilSlice then (NilSlice, c\<lparr>pool := Pool_Put p buf\<rparr>)
         else
           let out = make_slice (len dst);
               out = Slice (copy_bytes (bytes_of out) (bytes_of dst))
           in (out, c\<lparr>pool := Pool_Put p buf\<rparr>))"

definition Cache_Set :: "Cache \<Rightarrow> string \<Rightarrow> slice \<Rightarrow> error option \<times> Cache" where
  "Cache_Set c key val =
     (None, c\<lparr>cache := fastcache_Set (cache c) (string_bytes key) (bytes_of val)\<rparr>)"

definition Cache_Delete :: "Cache \<Rightarrow> string \<Rightarrow> error option \<times> Cache" where
  "Cache_Delete c key = (None, c\<lparr>cache := fastcache_Del (cache c) (string_bytes key)\<rparr>)"

definition Cache_Close :: "Cache \<Rightarrow> error option \<times> Cache" where
  "Cache_Close c = (None, c\<lparr>cache := fastcache_Reset (cache c)\<rparr>)"

section \<open>gcache_ttl.go: the cache with a time to live\<close>

text \<open>
  \<open>wrapCacheWithTTL\<close>: \<open>buf[:8]\<close> and \<open>buf[8:]\<close> are disjoint views of the array of
  \<open>buf\<close>, so after the two writes \<open>buf\<close> is the first view followed by the second.
  \<open>uint64(expireAt)\<close> and \<open>int64(expireAt)\<close> keep the 64 bits; only the reading
  (\<open>unat\<close> or \<open>sint\<close>) differs.
\<close>

definition wrapCacheWithTTL :: "Time \<Rightarrow> slice \<Rightarrow> Duration \<Rightarrow> slice option" where
  "wrapCacheWithTTL now data ttl =
     do {
       let expireAt = UnixMilli (Time_Add now ttl);
       let buf = make_slice (8 + len data);
       hd8 \<leftarrow> slice_to buf 8;
       hd8 \<leftarrow> PutUint64 (bytes_of hd8) expireAt;
       tl8 \<leftarrow> slice_from buf 8;
       let tl8 = copy_bytes (bytes_of tl8) (bytes_of data);
       Some (Slice (hd8 @ tl8))
     }"

definition unwrapCacheWithTTL :: "Time \<Rightarrow> slice \<Rightarrow> (slice \<times> bool) option" where
  "unwrapCacheWithTTL now data =
     (if len data < 8 then Some (NilSlice, False)
      else do {
        hd8 \<leftarrow> slice_to data 8;
        expireAt \<leftarrow> Uint64 (bytes_of hd8);
        if expireAt \<le>s UnixMilli now then Some (NilSlice, False)
        else do {
          tl8 \<leftarrow> slice_from data 8;
          Some (tl8, True)
        }
      })"

record CacheWithTTL =
  ICache :: Cache

definition NewCacheWithTTL :: "int \<Rightarrow> CacheWithTTL" where
  "NewCacheWithTTL maxBytes = \<lparr>ICache = NewCache maxBytes\<rparr>"

definition CacheWithTTL_Has :: "Time \<Rightarrow> CacheWithTTL \<Rightarrow> string \<Rightarrow> (bool \<times> CacheWithTTL) option" where
  "CacheWithTTL_Has now c key =
     (let (raw, i) = Cache_Get (ICache c) key
      in do {
        (_, ok) \<leftarrow> unwrapCacheWithTTL now raw;
        Some (ok, c\<lparr>ICache := i\<rparr>)
      })"

definition CacheWithTTL_Get :: "Time \<Rightarrow> CacheWithTTL \<Rightarrow> string \<Rightarrow> (slice \<times> CacheWithTTL) option" where
  "CacheWithTTL_Get now c key =
     (let (raw, i) = Cache_Get (ICache c) key
      in do {
        (data, ok) \<leftarrow> unwrapCacheWithTTL now raw;
        if \<not> ok then Some (NilSlice, c\<lparr>ICache := i\<rparr>)
        else Some (data, c\<lparr>ICache := i\<rparr>)
      })"

definition CacheWithTTL_Set ::
  "Time \<Rightarrow> CacheWithTTL \<Rightarrow> string \<Rightarrow> slice \<Rightarrow> Duration \<Rightarrow> (error option \<times> CacheWithTTL) option" where
  "CacheWithTTL_Set now c key val ttl =
     do {
       val \<leftarrow> wrapCacheWithTTL now val ttl;
       let (err, i) = Cache_Set (ICache c) key val;
       Some (err, c\<lparr>ICache := i\<rparr>)
     }"

definition CacheWithTTL_Delete :: "CacheWithTTL \<Rightarrow> string \<Rightarrow> error option \<times> CacheWithTTL" where
  "CacheWithTTL_Delete c key =
     (let (err, i) = Cache_Delete (ICache c) key in (err, c\<lparr>ICache := i\<rparr>))"

definition CacheWithTTL_Close :: "CacheWithTTL \<Rightarrow> error option \<times> CacheWithTTL" where
  "CacheWithTTL_Close c =
     (let (err, i) = Cache_Close (ICache c) in (err, c\<lparr>ICache := i\<rparr>))"

section \<open>The envelope layout as the specification words it\<close>

text \<open>
  The \<open>k\<close>-byte big-endian unsigned encoding of a number, most significant byte first, and
  the number that a byte sequence denotes when read big endian. Both are stated on
  natural numbers, independently of the shifts and masks of the library.
\<close>

fun big_endian :: "nat \<Rightarrow> nat \<Rightarrow> byte list" where
  "big_endian 0 n = []"
| "big_endian (Suc k) n = big_endian k (n div 256) @ [of_nat (n mod 256)]"

definition be_value :: "byte list \<Rightarrow> nat" where
  "be_value bs = foldl (\<lambda>a b. a * 256 + unat b) 0 bs"

text \<open>The two's complement reading of a 64-bit pattern given as a natural number.\<close>

definition int64_of :: "nat \<Rightarrow> int" where
  "int64_of n = (if n mod 2 ^ 64 < 2 ^ 63 then int (n mod 2 ^ 64) else int (n mod 2 ^ 64) - 2 ^ 64)"

text \<open>The bytes that \<open>PutUint64\<close> writes and the word that \<open>Uint64\<close> reads, by themselves.\<close>

definition be_bytes :: "64 word \<Rightarrow> byte list" where
  "be_bytes v = [ucast (drop_bit 56 v), ucast (drop_bit 48 v), ucast (drop_bit 40 v),
     ucast (drop_bit 32 v), ucast (drop_bit 24 v), ucast (drop_bit 16 v),
     ucast (drop_bit 8 v), ucast v]"

definition be_word :: "byte list \<Rightarrow> 64 word" where
  "be_word b = ucast (b ! 7) OR push_bit 8 (ucast (b ! 6)) OR push_bit 16 (ucast (b ! 5))
                 OR push_bit 24 (ucast (b ! 4)) OR push_bit 32 (ucast (b ! 3))
                 OR push_bit 40 (ucast (b ! 2)) OR push_bit 48 (ucast (b ! 1))
                 OR push_bit 56 (ucast (b ! 0))"

text \<open>
  The clock's epoch-millisecond reading as an integer, and the integers an \<open>int64\<close> holds.
\<close>

definition ms :: "Time \<Rightarrow> int" where
  "ms t = t div 1000000"

definition in_int64 :: "int \<Rightarrow> bool" where
  "in_int64 x \<longleftrightarrow> - (2 ^ 63) \<le> x \<and> x < 2 ^ 63"

section \<open>Big-endian encoding: library against specification\<close>

lemma length_big_endian: "length (big_endian k n) = k"
  by (induction k arbitrary: n) auto

lemma be_value_snoc: "be_value (bs @ [b]) = be_value bs * 256 + unat b"
  by (simp add: be_value_def)

lemma be_value_big_endian: "be_value (big_endian k n) = n mod 256 ^ k"
proof (induction k arbitrary: n)
  case 0
  show ?case by (simp add: be_value_def)
next
  case (Suc k)
  have "unat (of_nat (n mod 256) :: byte) = n mod 256"
    by (simp add: unat_of_nat)
  then have "be_value (big_endian (Suc k) n) = (n div 256) mod 256 ^ k * 256 + n mod 256"
    by (simp add: be_value_snoc Suc.IH)
  also have "\<dots> = n mod 256 ^ Suc k"
    by (simp add: mod_mult2_eq)
  finally show ?case .
qed

lemma byte_of_word:
  "(ucast (drop_bit k (v::64 word)) :: byte) = of_nat (unat v div 2 ^ k mod 256)"
  apply (rule word_unat_eq_iff[THEN iffD2])
  apply (simp add: unat_of_nat unat_drop_bit_eq unsigned_ucast_eq take_bit_eq_mod)
  apply (simp add: drop_bit_eq_div)
  done

lemma byte_bit: "bit (a :: byte) n \<Longrightarrow> n < 8"
  using bit_imp_le_length [of a n] by simp

lemma list8:
  assumes "length xs = 8"
  shows "\<exists>a0 a1 a2 a3 a4 a5 a6 a7. xs = [a0, a1, a2, a3, a4, a5, a6, a7]"
  using assms by (auto simp: eval_nat_numeral length_Suc_conv)

lemma PutUint64_bytes:
  assumes "8 \<le> length b"
  shows "PutUint64 b v = Some (be_bytes v @ drop 8 b)"
proof -
  have "length (take 8 b) = 8" using assms by simp
  then obtain a0 a1 a2 a3 a4 a5 a6 a7 where t: "take 8 b = [a0, a1, a2, a3, a4, a5, a6, a7]"
    using list8 by blast
  have b: "b = [a0, a1, a2, a3, a4, a5, a6, a7] @ drop 8 b"
    using t append_take_drop_id [of 8 b] by simp
  have "b[0 := x0, 1 := x1, 2 := x2, 3 := x3, 4 := x4, 5 := x5, 6 := x6, 7 := x7]
      = [x0, x1, x2, x3, x4, x5, x6, x7] @ drop 8 b" for x0 x1 x2 x3 x4 x5 x6 x7
    by (subst b) (simp add: eval_nat_numeral)
  then show ?thesis using assms by (simp add: PutUint64_def be_bytes_def)
qed

lemma Uint64_word: "8 \<le> length b \<Longrightarrow> Uint64 b = Some (be_word b)"
  by (simp add: Uint64_def be_word_def)

lemma be_bytes_be_word:
  "be_bytes (be_word [a0, a1, a2, a3, a4, a5, a6, a7]) = [a0, a1, a2, a3, a4, a5, a6, a7]"
proof -
  let ?w = "be_word [a0, a1, a2, a3, a4, a5, a6, a7]"
  have 0: "ucast (drop_bit 56 ?w) = a0"
    by (rule bit_word_eqI) (auto simp add: be_word_def bit_simps dest: byte_bit)
  have 1: "ucast (drop_bit 48 ?w) = a1"
    by (rule bit_word_eqI) (auto simp add: be_word_def bit_simps dest: byte_bit)
  have 2: "ucast (drop_bit 40 ?w) = a2"
    by (rule bit_word_eqI) (auto simp add: be_word_def bit_simps dest: byte_bit)
  have 3: "ucast (drop_bit 32 ?w) = a3"
    by (rule bit_word_eqI) (auto simp add: be_word_def bit_simps dest: byte_bit)
  have 4: "ucast (drop_bit 24 ?w) = a4"
    by (rule bit_word_eqI) (auto simp add: be_word_def bit_simps dest: byte_bit)
  have 5: "ucast (drop_bit 16 ?w) = a5"
    by (rule bit_word_eqI) (auto simp add: be_word_def bit_simps dest: byte_bit)
  have 6: "ucast (drop_bit 8 ?w) = a6"
    by (rule bit_word_eqI) (auto simp add: be_word_def bit_simps dest: byte_bit)
  have 7: "ucast ?w = a7"
    by (rule bit_word_eqI) (auto simp add: be_word_def bit_simps dest: byte_bit)
  show ?thesis unfolding be_bytes_def by (simp only: 0 1 2 3 4 5 6 7)
qed

lemma big_endian_8:
  "big_endian 8 n = [of_nat (n div 2 ^ 56 mod 256), of_nat (n div 2 ^ 48 mod 256),
     of_nat (n div 2 ^ 40 mod 256), of_nat (n div 2 ^ 32 mod 256), of_nat (n div 2 ^ 24 mod 256),
     of_nat (n div 2 ^ 16 mod 256), of_nat (n div 2 ^ 8 mod 256), of_nat (n mod 256)]"
proof -
  have e: "(8::nat) = Suc (Suc (Suc (Suc (Suc (Suc (Suc (Suc 0)))))))"
    by simp
  have d: "m div 2 ^ j div 256 = m div 2 ^ (j + 8)" for m j :: nat
    by (simp add: div_mult2_eq power_add)
  have d1: "n div 256 = n div 2 ^ 8" by simp
  have "big_endian 8 n = [of_nat (n div 256 div 256 div 256 div 256 div 256 div 256 div 256 mod 256),
     of_nat (n div 256 div 256 div 256 div 256 div 256 div 256 mod 256),
     of_nat (n div 256 div 256 div 256 div 256 div 256 mod 256),
     of_nat (n div 256 div 256 div 256 div 256 mod 256),
     of_nat (n div 256 div 256 div 256 mod 256),
     of_nat (n div 256 div 256 mod 256), of_nat (n div 256 mod 256), of_nat (n mod 256)]"
    unfolding e by (simp only: big_endian.simps append.simps)
  also have "\<dots> = [of_nat (n div 2 ^ (8+8+8+8+8+8+8) mod 256), of_nat (n div 2 ^ (8+8+8+8+8+8) mod 256),
     of_nat (n div 2 ^ (8+8+8+8+8) mod 256), of_nat (n div 2 ^ (8+8+8+8) mod 256), of_nat (n div 2 ^ (8+8+8) mod 256),
     of_nat (n div 2 ^ (8+8) mod 256), of_nat (n div 2 ^ 8 mod 256), of_nat (n mod 256)]"
    unfolding d1 by (simp only: d)
  finally show ?thesis by (simp only: numeral_plus_numeral[symmetric] add.assoc) simp
qed



lemma be_bytes_big_endian: "be_bytes v = big_endian 8 (unat v)"
proof -
  have l: "(ucast v :: byte) = of_nat (unat v mod 256)"
    using byte_of_word [of 0 v] by simp
  show ?thesis
    unfolding big_endian_8 be_bytes_def by (simp only: byte_of_word l)
qed

lemma be_value_be_bytes: "be_value (be_bytes v) = unat v"
proof -
  have "unat v < 2 ^ 64" using unsigned_less [of v] by simp
  then have "unat v mod 256 ^ 8 = unat v" by simp
  then show ?thesis by (simp only: be_bytes_big_endian be_value_big_endian)
qed

lemma be_word_value:
  assumes "length b = 8"
  shows "unat (be_word b) = be_value b"
proof -
  obtain a0 a1 a2 a3 a4 a5 a6 a7 where b: "b = [a0, a1, a2, a3, a4, a5, a6, a7]"
    using list8 [OF assms] by blast
  have "be_value b = be_value (be_bytes (be_word b))"
    unfolding b by (simp only: be_bytes_be_word)
  then show ?thesis by (simp only: be_value_be_bytes)
qed

lemma length_be_bytes: "length (be_bytes v) = 8"
  by (simp add: be_bytes_def)

lemma be_word_be_bytes: "be_word (be_bytes v) = v"
proof -
  have "unat (be_word (be_bytes v)) = unat v"
    by (simp only: be_word_value length_be_bytes be_value_be_bytes)
  then show ?thesis by (simp only: word_unat_eq_iff)
qed

lemma be_word_take: "be_word (take 8 b) = be_word b"
  by (simp add: be_word_def)

lemma be_word_append: "be_word (be_bytes v @ xs) = v"
proof -
  have "be_word (take 8 (be_bytes v @ xs)) = v"
    by (simp add: length_be_bytes be_word_be_bytes)
  then show ?thesis by (simp only: be_word_take)
qed


lemma wrap_eq:
  "wrapCacheWithTTL now data ttl =
     Some (Slice (be_bytes (UnixMilli (Time_Add now ttl)) @ bytes_of data))"
proof -
  have "PutUint64 (replicate 8 0) v = Some (be_bytes v)" for v
    using PutUint64_bytes [of "replicate 8 0" v] by simp
  then show ?thesis
    by (simp add: wrapCacheWithTTL_def make_slice_def len_def copy_bytes_def)
qed

lemma unwrap_eq:
  "unwrapCacheWithTTL now data =
     Some (if len data < 8 \<or> be_word (bytes_of data) \<le>s UnixMilli now then (NilSlice, False)
           else (Slice (drop 8 (bytes_of data)), True))"
proof (cases data)
  case NilSlice
  then show ?thesis by (simp add: unwrapCacheWithTTL_def len_def)
next
  case (Slice xs)
  show ?thesis
  proof (cases "length xs < 8")
    case True
    then show ?thesis using Slice by (simp add: unwrapCacheWithTTL_def len_def)
  next
    case False
    then have "Uint64 (take 8 xs) = Some (be_word xs)"
      using Uint64_word [of "take 8 xs"] by (simp add: be_word_take)
    then show ?thesis using Slice False by (simp add: unwrapCacheWithTTL_def len_def)
  qed
qed

section \<open>Signed readings and the millisecond clock\<close>

lemma sint_int64_of: "sint (w :: 64 word) = int64_of (unat w)"
proof -
  have b: "uint w < 2 ^ 64" "0 \<le> uint w"
    using uint_bounded [of w] by simp_all
  have "sint w = sint (word_of_int (uint w) :: 64 word)" by simp
  also have "\<dots> = (uint w + 2 ^ 63) mod 2 ^ 64 - 2 ^ 63"
    by (simp only: int_word_sint) simp
  also have "\<dots> = (if uint w < 2 ^ 63 then uint w else uint w - 2 ^ 64)"
  proof (cases "uint w < 2 ^ 63")
    case True
    then have "(uint w + 2 ^ 63) mod 2 ^ 64 = uint w + 2 ^ 63"
      using b by (intro mod_pos_pos_trivial) simp_all
    then show ?thesis using True by simp
  next
    case False
    have e: "uint w + 2 ^ 63 = uint w - 2 ^ 63 + 2 ^ 64"
      by simp
    have "(uint w + 2 ^ 63) mod 2 ^ 64 = (uint w - 2 ^ 63 + 2 ^ 64) mod 2 ^ 64"
      by (simp only: e)
    also have "\<dots> = (uint w - 2 ^ 63) mod 2 ^ 64"
      by (rule mod_add_self2)
    also have "\<dots> = uint w - 2 ^ 63"
      using b False by (intro mod_pos_pos_trivial) simp_all
    finally show ?thesis using False by simp
  qed
  finally have s: "sint w = (if uint w < 2 ^ 63 then uint w else uint w - 2 ^ 64)" .
  have "unat w < 2 ^ 64"
    using unsigned_less [of w] by simp
  then have m: "unat w mod 2 ^ 64 = unat w"
    by simp
  have c: "(unat w < 2 ^ 63) = (uint w < 2 ^ 63)"
  proof -
    have "(int (unat w) < int (2 ^ 63)) = (unat w < 2 ^ 63)"
      by (rule of_nat_less_iff)
    then show ?thesis by simp
  qed
  show ?thesis
    unfolding int64_of_def m s c by simp
qed

lemma sint_word_of_int_64:
  assumes "in_int64 x"
  shows "sint (word_of_int x :: 64 word) = x"
proof -
  have "0 \<le> x + 2 ^ 63" "x + 2 ^ 63 < 2 ^ 64"
    using assms by (simp_all add: in_int64_def)
  then have "(x + 2 ^ 63) mod 2 ^ 64 = x + 2 ^ 63"
    by (intro mod_pos_pos_trivial)
  then show ?thesis by (simp only: int_word_sint) simp
qed

lemma sint_UnixMilli: "in_int64 (ms t) \<Longrightarrow> sint (UnixMilli t) = ms t"
  by (simp add: UnixMilli_def ms_def sint_word_of_int_64)

lemma unat_UnixMilli: "unat (UnixMilli t) = nat (ms t mod 2 ^ 64)"
  by (simp add: UnixMilli_def ms_def unat_eq_nat_uint uint_word_of_int)

section \<open>The facades in closed form\<close>

lemma Cache_Get_eq:
  "Cache_Get c key =
     (Slice (case cache c (string_bytes key) of None \<Rightarrow> [] | Some v \<Rightarrow> v),
      c\<lparr>pool := Suc (pool c - 1)\<rparr>)"
  by (simp add: Cache_Get_def Pool_Get_def Pool_New_def Pool_Put_def fastcache_Get_def
      make_slice_def len_def copy_bytes_def Let_def split: option.split)

text \<open>Whatever the store holds, \<open>Cache.Get\<close> does not return the nil slice.\<close>

lemma Cache_Get_never_nil: "fst (Cache_Get c key) \<noteq> NilSlice"
  by (simp add: Cache_Get_eq)

lemma cache_Cache_Set:
  "cache (snd (Cache_Set c key v)) =
     (if fits (string_bytes key) (bytes_of v) then (cache c)(string_bytes key \<mapsto> bytes_of v)
      else cache c)"
  by (simp add: Cache_Set_def fastcache_Set_def)

lemma length_string_bytes: "length (string_bytes key) = length key"
  by (simp add: string_bytes_def)

lemma fits_iff: "fits (string_bytes key) v \<longleftrightarrow> 4 + length key + length v < 65536"
  by (auto simp add: fits_def chunkSize_def length_string_bytes)

lemma TTL_Get_eq:
  "CacheWithTTL_Get now c key =
     Some (case cache (ICache c) (string_bytes key) of
             None \<Rightarrow> NilSlice
           | Some env \<Rightarrow>
               if length env < 8 \<or> be_word env \<le>s UnixMilli now then NilSlice
               else Slice (drop 8 env),
           c\<lparr>ICache := (ICache c)\<lparr>pool := Suc (pool (ICache c) - 1)\<rparr>\<rparr>)"
  by (simp add: CacheWithTTL_Get_def Cache_Get_eq unwrap_eq len_def split: option.split)

lemma TTL_Has_eq:
  "CacheWithTTL_Has now c key =
     Some (case cache (ICache c) (string_bytes key) of
             None \<Rightarrow> False
           | Some env \<Rightarrow> \<not> (length env < 8 \<or> be_word env \<le>s UnixMilli now),
           c\<lparr>ICache := (ICache c)\<lparr>pool := Suc (pool (ICache c) - 1)\<rparr>\<rparr>)"
  by (simp add: CacheWithTTL_Has_def Cache_Get_eq unwrap_eq len_def split: option.split)

lemma TTL_Set_eq:
  "CacheWithTTL_Set now c key v ttl =
     Some (None, c\<lparr>ICache := (ICache c)\<lparr>cache :=
       fastcache_Set (cache (ICache c)) (string_bytes key)
         (be_bytes (UnixMilli (Time_Add now ttl)) @ bytes_of v)\<rparr>\<rparr>)"
  by (simp add: CacheWithTTL_Set_def wrap_eq Cache_Set_def)

lemma sint_be_word:
  assumes "8 \<le> length b"
  shows "sint (be_word b) = int64_of (be_value (take 8 b))"
proof -
  have "length (take 8 b) = 8" using assms by simp
  then have "unat (be_word (take 8 b)) = be_value (take 8 b)"
    by (rule be_word_value)
  then show ?thesis by (simp add: sint_int64_of be_word_take)
qed

lemma ms_mono: "a \<le> b \<Longrightarrow> ms a \<le> ms b"
  by (simp add: ms_def zdiv_mono1)

lemma fits_envelope:
  "fits (string_bytes key) (be_bytes e @ xs) \<longleftrightarrow> 12 + length key + length xs < 65536"
  by (auto simp add: fits_iff length_be_bytes)

lemma TTL_Set_Get:
  assumes "12 + length key + len v < 65536"
  shows "\<exists>c1. CacheWithTTL_Set t0 c key v ttl = Some (None, c1)
           \<and> cache (ICache c1) (string_bytes key)
               = Some (be_bytes (UnixMilli (Time_Add t0 ttl)) @ bytes_of v)
           \<and> map_option fst (CacheWithTTL_Get t c1 key)
               = Some (if sint (UnixMilli t) < sint (UnixMilli (Time_Add t0 ttl))
                       then Slice (bytes_of v) else NilSlice)"
  using assms
  by (simp add: TTL_Set_eq TTL_Get_eq fastcache_Set_def fits_envelope length_be_bytes
      be_word_append word_sle_eq not_le len_def)

section \<open>Properties of the plain cache\<close>

text \<open>
  C1. \<open>Get\<close> on a key that was never set, or on a key after \<open>Delete\<close>, is meant to
  return nil, and \<open>Has\<close> to be false. On a fresh cache and on a key set and then deleted,
  \<open>Has\<close> is false, but \<open>Get\<close> returns an empty slice that is not nil: the scratch
  buffer taken from the pool is not nil, the store hands it back untouched on a miss, so the
  test \<open>dst == nil\<close> fails and the miss is copied out as a zero-length slice.
\<close>

theorem Get_miss_is_empty_slice:
  "fst (Cache_Get (NewCache 1048576) ''non-existent-key'') = Slice []
   \<and> fst (Cache_Get (NewCache 1048576) ''non-existent-key'') \<noteq> NilSlice
   \<and> fst (Cache_Has (NewCache 1048576) ''non-existent-key'') = False
   \<and> fst (Cache_Get (snd (Cache_Delete (snd (Cache_Set (NewCache 1048576) ''test-key''
          (Slice (string_bytes ''test-value'')))) ''test-key'')) ''test-key'') = Slice []
   \<and> fst (Cache_Has (snd (Cache_Delete (snd (Cache_Set (NewCache 1048576) ''test-key''
          (Slice (string_bytes ''test-value'')))) ''test-key'')) ''test-key'') = False"
  by (simp add: Cache_Get_eq NewCache_def fastcache_New_def Cache_Has_def fastcache_Has_def
      Cache_Delete_def fastcache_Del_def)

text \<open>
  C5 (amended). For every key and value whose entry the store accepts, that is with
  \<open>4 + len key + len value < 65536\<close>, the zero-length and the nil value included,
  \<open>Set\<close> followed at once by \<open>Get\<close> returns a non-nil slice holding exactly the bytes of
  the value, and \<open>Has\<close> is true.
\<close>

theorem plain_roundtrip:
  assumes "4 + length key + len v < 65536"
  shows "fst (Cache_Get (snd (Cache_Set c key v)) key) = Slice (bytes_of v)
         \<and> fst (Cache_Has (snd (Cache_Set c key v)) key)"
  using assms
  by (simp add: Cache_Get_eq cache_Cache_Set fits_iff len_def Cache_Has_def fastcache_Has_def)

theorem plain_roundtrip_witness:
  "4 + length ''k'' + len (Slice []) < 65536
   \<and> fst (Cache_Get (snd (Cache_Set (NewCache 1048576) ''k'' (Slice []))) ''k'') = Slice []
   \<and> fst (Cache_Has (snd (Cache_Set (NewCache 1048576) ''k'' (Slice []))) ''k'')"
proof -
  have h: "4 + length ''k'' + len (Slice []) < 65536" by (simp add: len_def)
  show ?thesis using h plain_roundtrip [OF h, of "NewCache 1048576"] by simp
qed

text \<open>
  C5 as stated, for every value, fails on a value of 65536 bytes: the store skips the entry,
  so the following \<open>Get\<close> returns no bytes and \<open>Has\<close> is false.
\<close>

theorem plain_roundtrip_oversized:
  "bytes_of (fst (Cache_Get (snd (Cache_Set (NewCache 1048576) ''k''
       (Slice (replicate 65536 0)))) ''k'')) = []
   \<and> bytes_of (fst (Cache_Get (snd (Cache_Set (NewCache 1048576) ''k''
       (Slice (replicate 65536 0)))) ''k'')) \<noteq> replicate 65536 0
   \<and> \<not> fst (Cache_Has (snd (Cache_Set (NewCache 1048576) ''k''
       (Slice (replicate 65536 0)))) ''k'')"
  by (simp add: Cache_Get_eq cache_Cache_Set fits_iff NewCache_def fastcache_New_def
      Cache_Has_def fastcache_Has_def)

section \<open>Properties of the envelope\<close>

text \<open>
  C2. For every payload (nil included) and every ttl, \<open>wrapCacheWithTTL\<close> returns, without
  panic, the 8-byte big-endian unsigned encoding of \<open>expireAt\<close>, the epoch milliseconds of
  \<open>now + ttl\<close> read as an unsigned 64-bit number, followed by the payload bytes unchanged;
  the envelope is \<open>8 + len payload\<close> bytes long.
\<close>

theorem wrap_layout:
  "wrapCacheWithTTL now data ttl =
     Some (Slice (big_endian 8 (nat (ms (Time_Add now ttl) mod 2 ^ 64)) @ bytes_of data))
   \<and> map_option len (wrapCacheWithTTL now data ttl) = Some (8 + len data)"
  by (simp add: wrap_eq be_bytes_big_endian unat_UnixMilli len_def length_big_endian)

theorem wrap_layout_witness:
  "wrapCacheWithTTL 0 (Slice [1, 2, 3]) 5000000 = Some (Slice [0, 0, 0, 0, 0, 0, 0, 5, 1, 2, 3])
   \<and> wrapCacheWithTTL 0 NilSlice (- 5000000)
       = Some (Slice [255, 255, 255, 255, 255, 255, 255, 251])"
  using wrap_layout [of 0 "Slice [1, 2, 3]" 5000000] wrap_layout [of 0 NilSlice "- 5000000"]
  by (simp add: ms_def Time_Add_def big_endian_8)

text \<open>
  C3. For every input, nil and short slices included, \<open>unwrapCacheWithTTL\<close> returns
  without panic; it returns \<open>(nil, false)\<close> exactly when the input has fewer than 8 bytes
  or the clock's millisecond reading is at or past \<open>expireAt\<close>, the first 8 bytes read as
  a big-endian number and then as an \<open>int64\<close>; otherwise it returns the bytes after the
  first 8 and \<open>true\<close>.
\<close>

theorem unwrap_decides:
  "unwrapCacheWithTTL now data =
     Some (if len data < 8
              \<or> int64_of (be_value (take 8 (bytes_of data))) \<le> sint (UnixMilli now)
           then (NilSlice, False)
           else (Slice (drop 8 (bytes_of data)), True))"
proof (cases "len data < 8")
  case True
  then show ?thesis by (simp add: unwrap_eq)
next
  case False
  then have "8 \<le> length (bytes_of data)" by (simp add: len_def)
  then have "sint (be_word (bytes_of data)) = int64_of (be_value (take 8 (bytes_of data)))"
    by (rule sint_be_word)
  then show ?thesis by (simp add: unwrap_eq word_sle_eq)
qed

theorem unwrap_decides_witness:
  "unwrapCacheWithTTL 8999999 (Slice [0, 0, 0, 0, 0, 0, 0, 9, 1, 2, 3]) = Some (Slice [1, 2, 3], True)
   \<and> unwrapCacheWithTTL 9000000 (Slice [0, 0, 0, 0, 0, 0, 0, 9, 1, 2, 3]) = Some (NilSlice, False)
   \<and> unwrapCacheWithTTL 7000000 NilSlice = Some (NilSlice, False)
   \<and> unwrapCacheWithTTL 7000000 (Slice [1, 2, 3]) = Some (NilSlice, False)"
  using unwrap_decides [of 8999999 "Slice [0, 0, 0, 0, 0, 0, 0, 9, 1, 2, 3]"]
    unwrap_decides [of 9000000 "Slice [0, 0, 0, 0, 0, 0, 0, 9, 1, 2, 3]"]
    unwrap_decides [of 7000000 NilSlice]
    unwrap_decides [of 7000000 "Slice [1, 2, 3]"]
  by (simp add: len_def be_value_def int64_of_def UnixMilli_def)

text \<open>
  C10 (amended). Let \<open>x\<close> be any \<open>int64\<close> value, negative ones included, and let
  \<open>wrapCacheWithTTL\<close> compute it as \<open>expireAt\<close> (every \<open>int64\<close> value arises, from the
  clock at \<open>x\<close> milliseconds and a zero ttl). The envelope's first 8 bytes denote \<open>x\<close>
  modulo \<open>2 ^ 64\<close>, the \<open>Uint64\<close> of them read as an \<open>int64\<close> is \<open>x\<close> itself, and
  \<open>unwrapCacheWithTTL\<close> reports the envelope valid, with the payload, exactly when the
  clock's millisecond reading is strictly below \<open>x\<close>. An envelope with a negative
  \<open>expireAt\<close> is therefore expired at every clock reading from the epoch on, and never
  taken for a time far in the future.
\<close>

theorem expiry_cast_roundtrip:
  assumes "in_int64 x" and "ms (Time_Add now ttl) = x"
  shows "\<exists>env. wrapCacheWithTTL now data ttl = Some (Slice env)
           \<and> be_value (take 8 env) = nat (x mod 2 ^ 64)
           \<and> map_option sint (Uint64 (take 8 env)) = Some x
           \<and> unwrapCacheWithTTL t (Slice env)
               = Some (if x \<le> sint (UnixMilli t) then (NilSlice, False)
                       else (Slice (bytes_of data), True))
           \<and> (x < 0 \<and> 0 \<le> sint (UnixMilli t) \<longrightarrow>
                unwrapCacheWithTTL t (Slice env) = Some (NilSlice, False))"
proof -
  let ?e = "UnixMilli (Time_Add now ttl)"
  let ?env = "be_bytes ?e @ bytes_of data"
  have w: "wrapCacheWithTTL now data ttl = Some (Slice ?env)"
    by (rule wrap_eq)
  have t8: "take 8 ?env = be_bytes ?e"
    by (simp add: length_be_bytes)
  have s: "sint ?e = x"
    using assms sint_UnixMilli [of "Time_Add now ttl"] by simp
  have v: "be_value (take 8 ?env) = nat (x mod 2 ^ 64)"
    using assms(2) by (simp only: t8 be_value_be_bytes unat_UnixMilli)
  have "Uint64 (be_bytes ?e) = Some ?e"
    using Uint64_word [of "be_bytes ?e"] by (simp add: length_be_bytes be_word_be_bytes)
  then have d: "map_option sint (Uint64 (take 8 ?env)) = Some x"
    by (simp only: t8 s option.map)
  have u: "unwrapCacheWithTTL t (Slice ?env)
      = Some (if x \<le> sint (UnixMilli t) then (NilSlice, False)
              else (Slice (bytes_of data), True))"
    using s by (simp add: unwrap_eq len_def length_be_bytes be_word_append word_sle_eq)
  have n: "unwrapCacheWithTTL t (Slice ?env) = Some (NilSlice, False)"
    if "x < 0" "0 \<le> sint (UnixMilli t)"
    using that u by simp
  show ?thesis using w v d u n by blast
qed

theorem expiry_cast_roundtrip_witness:
  "in_int64 (- 1000) \<and> ms (Time_Add 0 (- 1000000000)) = - 1000
   \<and> (- 1000 :: int) < 0 \<and> 0 \<le> sint (UnixMilli 5000000)
   \<and> (\<exists>env. wrapCacheWithTTL 0 (Slice [1, 2, 3]) (- 1000000000) = Some (Slice env)
      \<and> be_value (take 8 env) = 18446744073709550616
      \<and> map_option sint (Uint64 (take 8 env)) = Some (- 1000)
      \<and> unwrapCacheWithTTL 5000000 (Slice env) = Some (NilSlice, False))"
proof -
  have h: "in_int64 (- 1000)"
    by (simp add: in_int64_def)
  have m: "ms (Time_Add 0 (- 1000000000)) = - 1000"
    by (simp add: ms_def Time_Add_def)
  have n: "(- 1000 :: int) < 0 \<and> 0 \<le> sint (UnixMilli 5000000)"
    by (simp add: UnixMilli_def)
  have "\<exists>env. wrapCacheWithTTL 0 (Slice [1, 2, 3]) (- 1000000000) = Some (Slice env)
      \<and> be_value (take 8 env) = 18446744073709550616
      \<and> map_option sint (Uint64 (take 8 env)) = Some (- 1000)
      \<and> unwrapCacheWithTTL 5000000 (Slice env) = Some (NilSlice, False)"
    using expiry_cast_roundtrip [OF h m, of "Slice [1, 2, 3]" 5000000] n by simp
  then show ?thesis using h m n by simp
qed

text \<open>
  C10 as stated, a negative \<open>expireAt\<close> is always expired, fails where the clock itself
  reads before the epoch: an envelope wrapped at 3 s before the epoch with a ttl of 1 s has
  \<open>expireAt = - 2000\<close>, and read at 2.5 s before the epoch it is still valid.
\<close>

theorem expiry_cast_counterexample:
  "ms (Time_Add (- 3000000000) 1000000000) = - 2000
   \<and> (- 3000000000 :: int) \<le> - 2500000000
   \<and> wrapCacheWithTTL (- 3000000000) (Slice [1, 2, 3]) 1000000000 \<noteq> None
   \<and> unwrapCacheWithTTL (- 2500000000)
        (the (wrapCacheWithTTL (- 3000000000) (Slice [1, 2, 3]) 1000000000))
      = Some (Slice [1, 2, 3], True)"
  by (simp add: wrap_eq unwrap_eq len_def length_be_bytes be_word_append word_sle_eq
      UnixMilli_def Time_Add_def ms_def)

section \<open>Properties of the cache with a time to live\<close>

text \<open>
  C4 (amended). Let the envelope fit the store (\<open>12 + len key + len value < 65536\<close>) and
  let the millisecond readings involved fit \<open>int64\<close>. After \<open>Set\<close> at \<open>t0\<close> with any
  ttl, \<open>expireAt\<close> is the epoch milliseconds of \<open>t0 + ttl\<close>, rounded down; a \<open>Get\<close> at a
  time whose millisecond reading is strictly below \<open>expireAt\<close> returns exactly the value,
  and a \<open>Get\<close> at a reading equal to or above \<open>expireAt\<close> returns nil. With a zero or
  negative ttl every \<open>Get\<close> at a time not before \<open>t0\<close> returns nil.
\<close>

theorem ttl_boundary:
  assumes "12 + length key + len v < 65536"
    and "in_int64 (ms (Time_Add t0 ttl))" and "in_int64 (ms t)"
  shows "\<exists>c1. CacheWithTTL_Set t0 c key v ttl = Some (None, c1)
           \<and> map_option fst (CacheWithTTL_Get t c1 key)
               = Some (if ms t < ms (Time_Add t0 ttl) then Slice (bytes_of v) else NilSlice)
           \<and> (sint ttl \<le> 0 \<and> t0 \<le> t \<longrightarrow>
                map_option fst (CacheWithTTL_Get t c1 key) = Some NilSlice)"
proof -
  obtain c1 where s: "CacheWithTTL_Set t0 c key v ttl = Some (None, c1)"
    and g: "map_option fst (CacheWithTTL_Get t c1 key)
               = Some (if sint (UnixMilli t) < sint (UnixMilli (Time_Add t0 ttl))
                       then Slice (bytes_of v) else NilSlice)"
    using TTL_Set_Get [OF assms(1), of t0 c ttl t] by blast
  have g': "map_option fst (CacheWithTTL_Get t c1 key)
               = Some (if ms t < ms (Time_Add t0 ttl) then Slice (bytes_of v) else NilSlice)"
    using g assms(2,3) by (simp add: sint_UnixMilli)
  have "ms (Time_Add t0 ttl) \<le> ms t" if "sint ttl \<le> 0" "t0 \<le> t"
    using that by (intro ms_mono) (simp add: Time_Add_def)
  then have "map_option fst (CacheWithTTL_Get t c1 key) = Some NilSlice"
    if "sint ttl \<le> 0" "t0 \<le> t"
    using that g' by simp
  then show ?thesis using s g' by blast
qed

theorem ttl_boundary_witness:
  "12 + length ''k'' + len (Slice [1, 2, 3]) < 65536
   \<and> in_int64 (ms (Time_Add 0 100000000)) \<and> in_int64 (ms 99000000) \<and> in_int64 (ms 100000000)
   \<and> (\<exists>c1. CacheWithTTL_Set 0 (NewCacheWithTTL 1048576) ''k'' (Slice [1, 2, 3]) 100000000
               = Some (None, c1)
         \<and> map_option fst (CacheWithTTL_Get 99000000 c1 ''k'') = Some (Slice [1, 2, 3]))
   \<and> (\<exists>c1. CacheWithTTL_Set 0 (NewCacheWithTTL 1048576) ''k'' (Slice [1, 2, 3]) 100000000
               = Some (None, c1)
         \<and> map_option fst (CacheWithTTL_Get 100000000 c1 ''k'') = Some NilSlice)
   \<and> in_int64 (ms (Time_Add 0 (- 1000000000))) \<and> in_int64 (ms 0)
   \<and> sint (- 1000000000 :: 64 word) \<le> 0 \<and> (0 :: int) \<le> 0
   \<and> (\<exists>c1. CacheWithTTL_Set 0 (NewCacheWithTTL 1048576) ''k'' (Slice [1, 2, 3]) (- 1000000000)
               = Some (None, c1)
         \<and> map_option fst (CacheWithTTL_Get 0 c1 ''k'') = Some NilSlice)"
proof -
  have f: "12 + length ''k'' + len (Slice [1, 2, 3]) < 65536"
    by (simp add: len_def)
  have a: "in_int64 (ms (Time_Add 0 100000000))"
    by (simp add: in_int64_def ms_def Time_Add_def)
  have b: "in_int64 (ms 99000000)" "in_int64 (ms 100000000)" "in_int64 (ms 0)"
    by (simp_all add: in_int64_def ms_def)
  have n: "in_int64 (ms (Time_Add 0 (- 1000000000)))"
    by (simp add: in_int64_def ms_def Time_Add_def)
  have 1: "\<exists>c1. CacheWithTTL_Set 0 (NewCacheWithTTL 1048576) ''k'' (Slice [1, 2, 3]) 100000000
               = Some (None, c1)
         \<and> map_option fst (CacheWithTTL_Get 99000000 c1 ''k'') = Some (Slice [1, 2, 3])"
    using ttl_boundary [OF f a b(1), of "NewCacheWithTTL 1048576"]
    by (simp add: ms_def Time_Add_def)
  have 2: "\<exists>c1. CacheWithTTL_Set 0 (NewCacheWithTTL 1048576) ''k'' (Slice [1, 2, 3]) 100000000
               = Some (None, c1)
         \<and> map_option fst (CacheWithTTL_Get 100000000 c1 ''k'') = Some NilSlice"
    using ttl_boundary [OF f a b(2), of "NewCacheWithTTL 1048576"]
    by (simp add: ms_def Time_Add_def)
  have 3: "\<exists>c1. CacheWithTTL_Set 0 (NewCacheWithTTL 1048576) ''k'' (Slice [1, 2, 3]) (- 1000000000)
               = Some (None, c1)
         \<and> map_option fst (CacheWithTTL_Get 0 c1 ''k'') = Some NilSlice"
    using ttl_boundary [OF f n b(3), of "NewCacheWithTTL 1048576"]
    by (simp add: ms_def Time_Add_def)
  show ?thesis using f a b n 1 2 3 by simp
qed

text \<open>
  C4 as stated fails twice. With a positive ttl of half a millisecond set at time 0, a
  \<open>Get\<close> at time 0, strictly before \<open>t0 + ttl\<close>, already returns nil: \<open>expireAt\<close> is
  rounded down to the millisecond of the clock. With a value of 65536 bytes and a ttl of one
  second, the store skips the envelope and the \<open>Get\<close> at time 0 returns nil.
\<close>

theorem ttl_boundary_counterexample:
  "0 < sint (500000 :: 64 word) \<and> (0 :: int) < Time_Add 0 500000
   \<and> CacheWithTTL_Set 0 (NewCacheWithTTL 1048576) ''k'' (Slice [1, 2, 3]) 500000 \<noteq> None
   \<and> map_option fst (CacheWithTTL_Get 0
        (snd (the (CacheWithTTL_Set 0 (NewCacheWithTTL 1048576) ''k'' (Slice [1, 2, 3]) 500000)))
        ''k'') = Some NilSlice
   \<and> 0 < sint (1000000000 :: 64 word) \<and> (0 :: int) < Time_Add 0 1000000000
   \<and> CacheWithTTL_Set 0 (NewCacheWithTTL 1048576) ''k'' (Slice (replicate 65536 0)) 1000000000
        \<noteq> None
   \<and> map_option fst (CacheWithTTL_Get 0
        (snd (the (CacheWithTTL_Set 0 (NewCacheWithTTL 1048576) ''k''
                     (Slice (replicate 65536 0)) 1000000000)))
        ''k'') = Some NilSlice"
  by (simp add: TTL_Set_eq TTL_Get_eq fastcache_Set_def fits_envelope length_be_bytes
      be_word_append word_sle_eq NewCacheWithTTL_def NewCache_def fastcache_New_def
      UnixMilli_def Time_Add_def len_def)

text \<open>
  C7 (amended). Let the envelope fit the store and the millisecond readings fit \<open>int64\<close>.
  After \<open>Set\<close> at \<open>t1\<close> with \<open>ttl1\<close> and \<open>Set\<close> at \<open>t2\<close> with \<open>ttl2\<close> on the same
  key, whatever \<open>t1\<close> and \<open>ttl1\<close> were, the stored envelope carries exactly the epoch
  milliseconds of \<open>t2 + ttl2\<close>, rounded down, and a \<open>Get\<close> returns the value exactly
  when the clock's millisecond reading is strictly below it; so a \<open>Get\<close> past the first
  expiry and before the millisecond of the second still returns the value.
\<close>

theorem ttl_overwrite:
  assumes "12 + length key + len v < 65536"
    and "in_int64 (ms (Time_Add t2 ttl2))" and "in_int64 (ms t)"
  shows "\<exists>c1 c2. CacheWithTTL_Set t1 c key v ttl1 = Some (None, c1)
           \<and> CacheWithTTL_Set t2 c1 key v ttl2 = Some (None, c2)
           \<and> cache (ICache c2) (string_bytes key)
               = Some (big_endian 8 (nat (ms (Time_Add t2 ttl2) mod 2 ^ 64)) @ bytes_of v)
           \<and> map_option fst (CacheWithTTL_Get t c2 key)
               = Some (if ms t < ms (Time_Add t2 ttl2) then Slice (bytes_of v) else NilSlice)"
proof -
  obtain c1 where s1: "CacheWithTTL_Set t1 c key v ttl1 = Some (None, c1)"
    using TTL_Set_Get [OF assms(1), of t1 c ttl1 t] by blast
  obtain c2 where s2: "CacheWithTTL_Set t2 c1 key v ttl2 = Some (None, c2)"
    and e: "cache (ICache c2) (string_bytes key)
               = Some (be_bytes (UnixMilli (Time_Add t2 ttl2)) @ bytes_of v)"
    and g: "map_option fst (CacheWithTTL_Get t c2 key)
               = Some (if sint (UnixMilli t) < sint (UnixMilli (Time_Add t2 ttl2))
                       then Slice (bytes_of v) else NilSlice)"
    using TTL_Set_Get [OF assms(1), of t2 c1 ttl2 t] by blast
  have e': "cache (ICache c2) (string_bytes key)
               = Some (big_endian 8 (nat (ms (Time_Add t2 ttl2) mod 2 ^ 64)) @ bytes_of v)"
    using e by (simp add: be_bytes_big_endian unat_UnixMilli)
  have g': "map_option fst (CacheWithTTL_Get t c2 key)
               = Some (if ms t < ms (Time_Add t2 ttl2) then Slice (bytes_of v) else NilSlice)"
    using g assms(2,3) by (simp add: sint_UnixMilli)
  show ?thesis using s1 s2 e' g' by blast
qed

theorem ttl_overwrite_witness:
  "12 + length ''k'' + len (Slice [1, 2, 3]) < 65536
   \<and> in_int64 (ms (Time_Add 30000000 200000000)) \<and> in_int64 (ms 60000000)
   \<and> (\<exists>c1 c2. CacheWithTTL_Set 0 (NewCacheWithTTL 1048576) ''k'' (Slice [1, 2, 3]) 50000000
                  = Some (None, c1)
         \<and> CacheWithTTL_Set 30000000 c1 ''k'' (Slice [1, 2, 3]) 200000000 = Some (None, c2)
         \<and> map_option fst (CacheWithTTL_Get 60000000 c2 ''k'') = Some (Slice [1, 2, 3]))"
proof -
  have f: "12 + length ''k'' + len (Slice [1, 2, 3]) < 65536"
    by (simp add: len_def)
  have a: "in_int64 (ms (Time_Add 30000000 200000000))"
    by (simp add: in_int64_def ms_def Time_Add_def)
  have b: "in_int64 (ms 60000000)"
    by (simp add: in_int64_def ms_def)
  have "\<exists>c1 c2. CacheWithTTL_Set 0 (NewCacheWithTTL 1048576) ''k'' (Slice [1, 2, 3]) 50000000
                  = Some (None, c1)
         \<and> CacheWithTTL_Set 30000000 c1 ''k'' (Slice [1, 2, 3]) 200000000 = Some (None, c2)
         \<and> map_option fst (CacheWithTTL_Get 60000000 c2 ''k'') = Some (Slice [1, 2, 3])"
    using ttl_overwrite [OF f a b, of 0 "NewCacheWithTTL 1048576" 50000000]
    by (simp add: ms_def Time_Add_def) blast
  then show ?thesis using f a b by simp
qed

text \<open>
  C7 as stated fails twice. Set at 0 for 1 ms, set again at 0.1 ms for 1.5 ms: a \<open>Get\<close> at
  1.2 ms is after the first expiry (1 ms) and before \<open>t2 + ttl2\<close> (1.6 ms), yet it returns
  nil, the second expiry being rounded down to 1 ms. With a value of 65536 bytes, set at 0
  for 50 ms and again at 30 ms for 200 ms, the \<open>Get\<close> at 60 ms returns nil: the store
  skipped both envelopes.
\<close>

theorem ttl_overwrite_counterexample:
  "(0 :: int) < 100000 \<and> (100000 :: int) < Time_Add 0 1000000
   \<and> Time_Add 0 1000000 < (1200000 :: int) \<and> (1200000 :: int) < Time_Add 100000 1500000
   \<and> CacheWithTTL_Set 0 (NewCacheWithTTL 1048576) ''k'' (Slice [1, 2, 3]) 1000000 \<noteq> None
   \<and> CacheWithTTL_Set 100000
        (snd (the (CacheWithTTL_Set 0 (NewCacheWithTTL 1048576) ''k'' (Slice [1, 2, 3]) 1000000)))
        ''k'' (Slice [1, 2, 3]) 1500000 \<noteq> None
   \<and> map_option fst (CacheWithTTL_Get 1200000
        (snd (the (CacheWithTTL_Set 100000
           (snd (the (CacheWithTTL_Set 0 (NewCacheWithTTL 1048576) ''k'' (Slice [1, 2, 3]) 1000000)))
           ''k'' (Slice [1, 2, 3]) 1500000)))
        ''k'') = Some NilSlice
   \<and> (0 :: int) < 30000000 \<and> (30000000 :: int) < Time_Add 0 50000000
   \<and> Time_Add 0 50000000 < (60000000 :: int) \<and> (60000000 :: int) < Time_Add 30000000 200000000
   \<and> map_option fst (CacheWithTTL_Get 60000000
        (snd (the (CacheWithTTL_Set 30000000
           (snd (the (CacheWithTTL_Set 0 (NewCacheWithTTL 1048576) ''k''
                        (Slice (replicate 65536 0)) 50000000)))
           ''k'' (Slice (replicate 65536 0)) 200000000)))
        ''k'') = Some NilSlice"
  by (simp add: TTL_Set_eq TTL_Get_eq fastcache_Set_def fits_envelope length_be_bytes
      be_word_append word_sle_eq NewCacheWithTTL_def NewCache_def fastcache_New_def
      UnixMilli_def Time_Add_def len_def)

text \<open>
  C6. On every state and at every clock reading, \<open>Has\<close> and \<open>Get\<close> of the cache with a
  time to live both return, and \<open>Has\<close> is true exactly when \<open>Get\<close> is not nil. A key
  whose stored envelope carries a timestamp at or before the clock's millisecond reading
  answers false.
\<close>

theorem Has_iff_Get:
  "\<exists>b s c1 c2. CacheWithTTL_Has now c key = Some (b, c1)
     \<and> CacheWithTTL_Get now c key = Some (s, c2)
     \<and> (b \<longleftrightarrow> s \<noteq> NilSlice)
     \<and> (cache (ICache c) (string_bytes key) = Some env \<and> 8 \<le> length env
          \<and> int64_of (be_value (take 8 env)) \<le> sint (UnixMilli now)
        \<longrightarrow> \<not> b)"
proof -
  have "be_word env \<le>s UnixMilli now"
    if "8 \<le> length env" "int64_of (be_value (take 8 env)) \<le> sint (UnixMilli now)"
    using that by (simp add: word_sle_eq sint_be_word)
  then show ?thesis
    by (auto simp add: TTL_Has_eq TTL_Get_eq split: option.split)
qed

theorem Has_iff_Get_witness:
  "cache (ICache \<lparr>ICache = \<lparr>pool = 0, cache = [string_bytes ''k'' \<mapsto> [0, 0, 0, 0, 0, 0, 0, 9, 1, 2, 3]]\<rparr>\<rparr>)
      (string_bytes ''k'') = Some [0, 0, 0, 0, 0, 0, 0, 9, 1, 2, 3]
   \<and> 8 \<le> length [0, 0, 0, 0, 0, 0, 0, 9, 1, 2, 3 :: byte]
   \<and> int64_of (be_value (take 8 [0, 0, 0, 0, 0, 0, 0, 9, 1, 2, 3])) \<le> sint (UnixMilli 9000000)
   \<and> map_option fst (CacheWithTTL_Has 9000000
        \<lparr>ICache = \<lparr>pool = 0, cache = [string_bytes ''k'' \<mapsto> [0, 0, 0, 0, 0, 0, 0, 9, 1, 2, 3]]\<rparr>\<rparr>
        ''k'') = Some False
   \<and> map_option fst (CacheWithTTL_Get 9000000
        \<lparr>ICache = \<lparr>pool = 0, cache = [string_bytes ''k'' \<mapsto> [0, 0, 0, 0, 0, 0, 0, 9, 1, 2, 3]]\<rparr>\<rparr>
        ''k'') = Some NilSlice"
proof -
  let ?c = "\<lparr>ICache = \<lparr>pool = 0, cache = [string_bytes ''k'' \<mapsto> [0, 0, 0, 0, 0, 0, 0, 9, 1, 2, 3]]\<rparr>\<rparr>"
  let ?env = "[0, 0, 0, 0, 0, 0, 0, 9, 1, 2, 3] :: byte list"
  have h: "cache (ICache ?c) (string_bytes ''k'') = Some ?env \<and> 8 \<le> length ?env
      \<and> int64_of (be_value (take 8 ?env)) \<le> sint (UnixMilli 9000000)"
    by (simp add: be_value_def int64_of_def UnixMilli_def)
  obtain b s c1 c2 where r: "CacheWithTTL_Has 9000000 ?c ''k'' = Some (b, c1)"
      "CacheWithTTL_Get 9000000 ?c ''k'' = Some (s, c2)" "b \<longleftrightarrow> s \<noteq> NilSlice"
      "cache (ICache ?c) (string_bytes ''k'') = Some ?env \<and> 8 \<le> length ?env
          \<and> int64_of (be_value (take 8 ?env)) \<le> sint (UnixMilli 9000000) \<longrightarrow> \<not> b"
    using Has_iff_Get [of 9000000 ?c "''k''" ?env] by blast
  from r(4) h have "\<not> b" by blast
  with r(3) have "s = NilSlice" by blast
  with r(1,2) \<open>\<not> b\<close> h show ?thesis by simp
qed

text \<open>
  C8. \<open>Get\<close> and \<open>Has\<close> of both caches leave the entries of the store as they were,
  whatever is stored under the key: an expired or malformed envelope stays in the store.
\<close>

theorem reads_keep_store:
  "cache (snd (Cache_Get c key)) = cache c
   \<and> cache (snd (Cache_Has c key)) = cache c
   \<and> map_option (\<lambda>r. cache (ICache (snd r))) (CacheWithTTL_Get now t key) = Some (cache (ICache t))
   \<and> map_option (\<lambda>r. cache (ICache (snd r))) (CacheWithTTL_Has now t key) = Some (cache (ICache t))"
  by (simp add: Cache_Get_eq Cache_Has_def TTL_Get_eq TTL_Has_eq)

theorem reads_keep_store_witness:
  "cache (snd (Cache_Get \<lparr>pool = 0, cache = [string_bytes ''k'' \<mapsto> [1, 2, 3]]\<rparr> ''k''))
     = [string_bytes ''k'' \<mapsto> [1, 2, 3]]
   \<and> cache (snd (Cache_Has \<lparr>pool = 0, cache = [string_bytes ''k'' \<mapsto> [1, 2, 3]]\<rparr> ''k''))
     = [string_bytes ''k'' \<mapsto> [1, 2, 3]]
   \<and> map_option (\<lambda>r. cache (ICache (snd r)))
     (CacheWithTTL_Get 9000000
        \<lparr>ICache = \<lparr>pool = 0, cache = [string_bytes ''k'' \<mapsto> [0, 0, 0, 0, 0, 0, 0, 9, 1, 2, 3]]\<rparr>\<rparr>
        ''k'') = Some [string_bytes ''k'' \<mapsto> [0, 0, 0, 0, 0, 0, 0, 9, 1, 2, 3]]
   \<and> map_option (\<lambda>r. cache (ICache (snd r)))
     (CacheWithTTL_Has 9000000
        \<lparr>ICache = \<lparr>pool = 0, cache = [string_bytes ''k'' \<mapsto> [0, 0, 0, 0, 0, 0, 0, 9, 1, 2, 3]]\<rparr>\<rparr>
        ''k'') = Some [string_bytes ''k'' \<mapsto> [0, 0, 0, 0, 0, 0, 0, 9, 1, 2, 3]]"
  using reads_keep_store [where now = 9000000 and key = "''k''"
      and c = "\<lparr>pool = 0, cache = [string_bytes ''k'' \<mapsto> [1, 2, 3]]\<rparr>"
      and t = "\<lparr>ICache = \<lparr>pool = 0,
                   cache = [string_bytes ''k'' \<mapsto> [0, 0, 0, 0, 0, 0, 0, 9, 1, 2, 3]]\<rparr>\<rparr>"]
  by simp

text \<open>
  C9. \<open>Set\<close>, \<open>Delete\<close> and \<open>Close\<close> of both caches return a nil error on every input;
  the \<open>Set\<close> of the cache with a time to live also never panics.
\<close>

theorem never_fault:
  "fst (Cache_Set c key v) = None
   \<and> fst (Cache_Delete c key) = None
   \<and> fst (Cache_Close c) = None
   \<and> map_option fst (CacheWithTTL_Set now t key v ttl) = Some None
   \<and> fst (CacheWithTTL_Delete t key) = None
   \<and> fst (CacheWithTTL_Close t) = None"
  by (simp add: Cache_Set_def Cache_Delete_def Cache_Close_def TTL_Set_eq
      CacheWithTTL_Delete_def CacheWithTTL_Close_def)

theorem never_fault_witness:
  "fst (Cache_Set (NewCache 1048576) [] NilSlice) = None
   \<and> map_option fst (CacheWithTTL_Set 0 (NewCacheWithTTL 1048576) [] NilSlice (- 1)) = Some None"
  using never_fault [where c = "NewCache 1048576" and key = "[]" and v = NilSlice and now = 0
      and t = "NewCacheWithTTL 1048576" and ttl = "- 1"]
  by simp

end
